theory Spec2Isabelle
  imports Main "HOL-Library.AList" "HOL-Library.Char_ord" "HOL-Library.List_Lexorder"
begin

section \<open>The data-tree diagram builder of sharrow (\<^verbatim>\<open>sharrow/viz.py\<close>)\<close>

text \<open>
  \<^verbatim>\<open>make_graph(datatree, fontname, fontsize)\<close> walks the relationship graph of a data
  tree and issues \<^verbatim>\<open>add_node\<close> and \<^verbatim>\<open>add_edge\<close> calls on a pygraphviz \<^verbatim>\<open>AGraph\<close>.
  The embedding follows the function statement by statement. What \<^verbatim>\<open>viz.py\<close> only
  reads from its argument is data of the model:
  \<^item> \<^verbatim>\<open>datatree._graph.nodes\<close> and \<^verbatim>\<open>datatree._graph.edges\<close> are the two sequences the
    loops iterate over;
  \<^item> \<^verbatim>\<open>datatree._get_relationship\<close> is defined outside \<^verbatim>\<open>viz.py\<close>; it is a field of the
    tree, and \<open>None\<close> stands for a call that raises;
  \<^item> \<^verbatim>\<open>datatree.subspaces[k].dims\<close> is a partial map from a node identifier to its
    sequence of dimension names, a missing key raising \<^verbatim>\<open>KeyError\<close>;
  \<^item> \<^verbatim>\<open>datatree.root_node_name\<close> is \<open>None\<close> or a string. Python tests it for truth
    (\<^verbatim>\<open>if datatree.root_node_name:\<close>), so the empty string counts as no root.
\<close>

subsection \<open>Data\<close>

record relationship =
  parent_data :: string
  parent_name :: string
  child_data :: string
  child_name :: string
  indexing :: string

record 'e datatree =
  graph_nodes :: "string list"
  graph_edges :: "'e list"
  get_relationship :: "'e \<Rightarrow> relationship option"
  subspaces :: "string \<rightharpoonup> string list"
  root_node_name :: "string option"

text \<open>
  An entry of the dictionary \<^verbatim>\<open>g_nodes\<close>: \<^verbatim>\<open>{"dims": list(...), "vars": set()}\<close>. The
  dictionary itself keeps insertion order, so it is an association list whose keys are
  assigned with \<^const>\<open>AList.update\<close> (an existing key keeps its place, a new one goes
  last) and read with \<^const>\<open>map_of\<close>.
\<close>

record g_node =
  dims :: "string list"
  vars :: "string set"

type_synonym g_nodes = "(string \<times> g_node) list"

datatype error =
    ModuleNotFoundError
  | KeyError string
  | RelationshipError

text \<open>
  The label of a node is an HTML-like table. Its rows (\<^verbatim>\<open><TR>\<close>) are kept as lists of
  cells (\<^verbatim>\<open><TD>\<close>): a header cell with its \<^verbatim>\<open>SIDES\<close> and caption, the empty cell
  \<^verbatim>\<open><TD BORDER="0"></TD>\<close>, or an attribute cell with its \<^verbatim>\<open>PORT\<close> and content. The
  first row of every label, \<^verbatim>\<open><TD PORT="f0" ...><B>k</B></TD>\<close>, is the field \<open>title\<close>;
  \<open>cells\<close> is the list \<^verbatim>\<open>cells\<close> of the source. Fonts, colours and the point size
  \<^verbatim>\<open>small\<close> do not influence which rows and ports exist and are left out.
\<close>

datatype cell =
    Head string string
  | Blank
  | Port string string

type_synonym row = "cell list"

record label =
  title :: string
  cells :: "row list"

text \<open>
  The graph handed to the renderer, as the sequence of \<^verbatim>\<open>add_node\<close> and \<^verbatim>\<open>add_edge\<close>
  calls with their keyword arguments. pygraphviz is a library outside the repository:
  what it makes of the calls (it creates a bare node for an endpoint of an edge that was
  never added, and finds an existing edge again by its end points and key) is not part
  of the model.
\<close>

record ag_node =
  node_name :: string
  node_label :: label
  shape :: string

record ag_edge =
  tail :: string
  head :: string
  key :: string
  tailport :: string
  headport :: string
  dir :: string
  arrowhead :: string

record agraph =
  ag_nodes :: "ag_node list"
  ag_edges :: "ag_edge list"

subsection \<open>Seeding the node dictionary (lines 22 to 35)\<close>

definition new_node :: "string list \<Rightarrow> g_node" where
  "new_node ds = \<lparr>dims = ds, vars = {}\<rparr>"

definition truthy :: "string option \<Rightarrow> bool" where
  "truthy r = (case r of None \<Rightarrow> False | Some s \<Rightarrow> s \<noteq> [])"

definition seed_root :: "'e datatree \<Rightarrow> error + g_nodes" where
  "seed_root dt =
     (if truthy (root_node_name dt) then
        (case subspaces dt (the (root_node_name dt)) of
           None \<Rightarrow> Inl (KeyError (the (root_node_name dt)))
         | Some ds \<Rightarrow> Inr [(the (root_node_name dt), new_node ds)])
      else Inr [])"

fun seed_nodes :: "'e datatree \<Rightarrow> string list \<Rightarrow> g_nodes \<Rightarrow> error + g_nodes" where
  "seed_nodes dt [] gn = Inr gn"
| "seed_nodes dt (k # ks) gn =
     (if Some k = root_node_name dt then seed_nodes dt ks gn
      else (case subspaces dt k of
              None \<Rightarrow> Inl (KeyError k)
            | Some ds \<Rightarrow> seed_nodes dt ks (AList.update k (new_node ds) gn)))"

definition init_nodes :: "'e datatree \<Rightarrow> error + g_nodes" where
  "init_nodes dt =
     (if graph_nodes dt \<noteq> [] then
        (case seed_root dt of
           Inl e \<Rightarrow> Inl e
         | Inr gn \<Rightarrow> seed_nodes dt (graph_nodes dt) gn)
      else Inr [])"

subsection \<open>Collecting the variables (lines 36 to 39)\<close>

fun collect_vars :: "'e datatree \<Rightarrow> 'e list \<Rightarrow> g_nodes \<Rightarrow> error + g_nodes" where
  "collect_vars dt [] gn = Inr gn"
| "collect_vars dt (e # es) gn =
     (case get_relationship dt e of
        None \<Rightarrow> Inl RelationshipError
      | Some rel \<Rightarrow>
          (case map_of gn (parent_data rel) of
             None \<Rightarrow> Inl (KeyError (parent_data rel))
           | Some v \<Rightarrow>
               collect_vars dt es
                 (AList.update (parent_data rel)
                    (v\<lparr>vars := insert (parent_name rel) (vars v)\<rparr>) gn)))"

definition g_nodes_of :: "'e datatree \<Rightarrow> error + g_nodes" where
  "g_nodes_of dt =
     (case init_nodes dt of
        Inl e \<Rightarrow> Inl e
      | Inr gn \<Rightarrow> collect_vars dt (graph_edges dt) gn)"

subsection \<open>The label of a node (lines 50 to 119)\<close>

text \<open>
  \<^verbatim>\<open>itertools.zip_longest(dims, vars, fillvalue="")\<close>. The second argument is a Python
  set: the order in which the loop visits it is the set's iteration order, which for
  strings follows their hashes and is not fixed by the language. The order is therefore
  a parameter \<open>set_iter\<close> of the model; \<open>valid_iter\<close> says that it visits every element
  of a finite set once.
\<close>

fun zip_longest :: "string list \<Rightarrow> string list \<Rightarrow> (string \<times> string) list" where
  "zip_longest [] [] = []"
| "zip_longest (d # ds) [] = (d, []) # zip_longest ds []"
| "zip_longest [] (v # vs) = ([], v) # zip_longest [] vs"
| "zip_longest (d # ds) (v # vs) = (d, v) # zip_longest ds vs"

definition valid_iter :: "(string set \<Rightarrow> string list) \<Rightarrow> bool" where
  "valid_iter set_iter = (\<forall>S. finite S \<longrightarrow> set (set_iter S) = S \<and> distinct (set_iter S))"

definition pair_row :: "string \<times> string \<Rightarrow> row" where
  "pair_row p =
     (case p of (d, v) \<Rightarrow>
        if d = [] then [Blank, Port (''var'' @ v) v]
        else if v = [] then [Port (''dim'' @ d) d, Blank]
        else [Port (''dim'' @ d) d, Port (''var'' @ v) v])"

definition dim_row :: "string \<Rightarrow> row" where
  "dim_row d = [Port (''dim'' @ d) d]"

definition node_label :: "(string set \<Rightarrow> string list) \<Rightarrow> string \<Rightarrow> g_node \<Rightarrow> label" where
  "node_label set_iter k v =
     \<lparr>title = k,
      cells =
        (if dims v \<noteq> [] \<and> vars v \<noteq> {} then
           [Head ''L'' ''DIMENSIONS'', Head ''R'' ''VARIABLES'']
             # map pair_row (zip_longest (dims v) (set_iter (vars v)))
         else if dims v \<noteq> [] \<and> vars v = {} then
           [Head ''LR'' ''DIMENSIONS''] # map dim_row (dims v)
         else [])\<rparr>"

text \<open>The attribute rows of a label are its rows that carry a port; header rows do not.\<close>

fun is_port :: "cell \<Rightarrow> bool" where
  "is_port (Port p c) = True"
| "is_port c = False"

definition attr_rows :: "label \<Rightarrow> row list" where
  "attr_rows l = filter (list_ex is_port) (cells l)"

subsection \<open>Nodes and edges of the graph (lines 121 to 146)\<close>

definition add_node :: "(string set \<Rightarrow> string list) \<Rightarrow> string \<times> g_node \<Rightarrow> ag_node" where
  "add_node set_iter kv =
     \<lparr>node_name = fst kv, node_label = node_label set_iter (fst kv) (snd kv),
      shape = ''plaintext''\<rparr>"

text \<open>
  \<^verbatim>\<open>key=repr(rel)\<close>: the method \<^verbatim>\<open>Relationship.__repr__\<close> is not part of \<^verbatim>\<open>viz.py\<close> and
  is the parameter \<open>rel_repr\<close>.
\<close>

definition add_edge :: "(relationship \<Rightarrow> string) \<Rightarrow> relationship \<Rightarrow> ag_edge" where
  "add_edge rel_repr rel =
     \<lparr>tail = parent_data rel, head = child_data rel, key = rel_repr rel,
      tailport = ''var'' @ parent_name rel, headport = ''dim'' @ child_name rel,
      dir = ''forward'',
      arrowhead = (if indexing rel = ''label'' then ''odiamond'' else ''normal'')\<rparr>"

fun add_edges :: "(relationship \<Rightarrow> string) \<Rightarrow> 'e datatree \<Rightarrow> 'e list \<Rightarrow> agraph \<Rightarrow> error + agraph" where
  "add_edges rel_repr dt [] g = Inr g"
| "add_edges rel_repr dt (e # es) g =
     (case get_relationship dt e of
        None \<Rightarrow> Inl RelationshipError
      | Some rel \<Rightarrow>
          add_edges rel_repr dt es (g\<lparr>ag_edges := ag_edges g @ [add_edge rel_repr rel]\<rparr>))"

text \<open>
  The first argument says whether \<^verbatim>\<open>import pygraphviz\<close> succeeded (\<^verbatim>\<open>viz is not None\<close>).
\<close>

definition make_graph ::
  "bool \<Rightarrow> (relationship \<Rightarrow> string) \<Rightarrow> (string set \<Rightarrow> string list) \<Rightarrow> 'e datatree \<Rightarrow> error + agraph" where
  "make_graph viz rel_repr set_iter dt =
     (if \<not> viz then Inl ModuleNotFoundError
      else
        (case g_nodes_of dt of
           Inl e \<Rightarrow> Inl e
         | Inr gn \<Rightarrow>
             add_edges rel_repr dt (graph_edges dt)
               \<lparr>ag_nodes = (if graph_nodes dt \<noteq> [] then map (add_node set_iter) gn else []),
                ag_edges = []\<rparr>))"

lemma zip_longest_length: "length (zip_longest ds vs) = max (length ds) (length vs)"
  by (induction ds vs rule: zip_longest.induct) auto

subsection \<open>What the loops return\<close>

lemma add_edges_Inr:
  "add_edges rp dt es g = Inr g' \<Longrightarrow>
   \<exists>rels. map (get_relationship dt) es = map Some rels \<and>
          g' = g\<lparr>ag_edges := ag_edges g @ map (add_edge rp) rels\<rparr>"
proof (induction es arbitrary: g)
  case Nil
  then show ?case by simp
next
  case (Cons e es)
  from Cons.prems obtain rel where rel: "get_relationship dt e = Some rel"
    and rest: "add_edges rp dt es (g\<lparr>ag_edges := ag_edges g @ [add_edge rp rel]\<rparr>) = Inr g'"
    by (auto split: option.splits)
  from Cons.IH [OF rest] obtain rels where
    rs: "map (get_relationship dt) es = map Some rels"
    and g': "g' = g\<lparr>ag_edges := ag_edges g @ [add_edge rp rel]\<rparr>
                 \<lparr>ag_edges := ag_edges (g\<lparr>ag_edges := ag_edges g @ [add_edge rp rel]\<rparr>) @ map (add_edge rp) rels\<rparr>"
    by blast
  have "map (get_relationship dt) (e # es) = map Some (rel # rels)"
    using rel rs by simp
  moreover have "g' = g\<lparr>ag_edges := ag_edges g @ map (add_edge rp) (rel # rels)\<rparr>"
    using g' by simp
  ultimately show ?case by blast
qed

lemma add_edges_resolved:
  "map (get_relationship dt) es = map Some rels \<Longrightarrow>
   add_edges rp dt es g = Inr (g\<lparr>ag_edges := ag_edges g @ map (add_edge rp) rels\<rparr>)"
proof (induction es arbitrary: g rels)
  case Nil
  then show ?case by simp
next
  case (Cons e es)
  then obtain rel rels' where "rels = rel # rels'" "get_relationship dt e = Some rel"
    "map (get_relationship dt) es = map Some rels'"
    by (cases rels) auto
  with Cons.IH show ?case by simp
qed

lemma collect_vars_keys:
  "collect_vars dt es gn = Inr gn' \<Longrightarrow> map fst gn' = map fst gn"
proof (induction es arbitrary: gn)
  case Nil
  then show ?case by simp
next
  case (Cons e es)
  from Cons.prems obtain rel v where rel: "get_relationship dt e = Some rel"
    and v: "map_of gn (parent_data rel) = Some v"
    and rest: "collect_vars dt es (AList.update (parent_data rel) (v\<lparr>vars := insert (parent_name rel) (vars v)\<rparr>) gn) = Inr gn'"
    by (auto split: option.splits)
  from v have "parent_data rel \<in> set (map fst gn)"
    by (metis map_of_eq_None_iff option.distinct(1) set_map)
  then have "map fst (AList.update (parent_data rel) (v\<lparr>vars := insert (parent_name rel) (vars v)\<rparr>) gn) = map fst gn"
    by (simp add: update_keys)
  with Cons.IH [OF rest] show ?case by simp
qed

lemma collect_vars_resolves:
  "collect_vars dt es gn = Inr gn' \<Longrightarrow>
   \<exists>rels. map (get_relationship dt) es = map Some rels \<and> parent_data ` set rels \<subseteq> fst ` set gn"
proof (induction es arbitrary: gn)
  case Nil
  then show ?case by simp
next
  case (Cons e es)
  from Cons.prems obtain rel v where rel: "get_relationship dt e = Some rel"
    and v: "map_of gn (parent_data rel) = Some v"
    and rest: "collect_vars dt es (AList.update (parent_data rel) (v\<lparr>vars := insert (parent_name rel) (vars v)\<rparr>) gn) = Inr gn'"
    by (auto split: option.splits)
  from v have pin: "parent_data rel \<in> fst ` set gn"
    by (metis map_of_eq_None_iff option.distinct(1))
  from Cons.IH [OF rest] obtain rels where rs: "map (get_relationship dt) es = map Some rels"
    and sub: "parent_data ` set rels \<subseteq> fst ` set (AList.update (parent_data rel) (v\<lparr>vars := insert (parent_name rel) (vars v)\<rparr>) gn)"
    by blast
  from sub pin have "parent_data ` set rels \<subseteq> fst ` set gn"
    by (simp add: dom_update insert_absorb)
  with rel rs pin have "map (get_relationship dt) (e # es) = map Some (rel # rels) \<and> parent_data ` set (rel # rels) \<subseteq> fst ` set gn"
    by simp
  then show ?case by blast
qed

lemma seed_nodes_keys:
  "seed_nodes dt ks gn = Inr gn' \<Longrightarrow>
   fst ` set gn' = fst ` set gn \<union> {k \<in> set ks. Some k \<noteq> root_node_name dt}"
proof (induction ks arbitrary: gn)
  case Nil
  then show ?case by simp
next
  case (Cons k ks)
  show ?case
  proof (cases "Some k = root_node_name dt")
    case True
    with Cons.prems have "seed_nodes dt ks gn = Inr gn'" by simp
    from Cons.IH [OF this] True show ?thesis by auto
  next
    case False
    with Cons.prems obtain ds where ds: "subspaces dt k = Some ds"
      and rest: "seed_nodes dt ks (AList.update k (new_node ds) gn) = Inr gn'"
      by (auto split: option.splits)
    from Cons.IH [OF rest] False show ?thesis
      by (auto simp: dom_update)
  qed
qed

lemma seed_nodes_prefix:
  "seed_nodes dt ks gn = Inr gn' \<Longrightarrow> \<exists>rest. map fst gn' = map fst gn @ rest"
proof (induction ks arbitrary: gn)
  case Nil
  then show ?case by simp
next
  case (Cons k ks)
  show ?case
  proof (cases "Some k = root_node_name dt")
    case True
    with Cons.prems have "seed_nodes dt ks gn = Inr gn'" by simp
    from Cons.IH [OF this] show ?thesis .
  next
    case False
    with Cons.prems obtain ds where ds: "subspaces dt k = Some ds"
      and rest: "seed_nodes dt ks (AList.update k (new_node ds) gn) = Inr gn'"
      by (auto split: option.splits)
    from Cons.IH [OF rest] obtain r where "map fst gn' = map fst (AList.update k (new_node ds) gn) @ r"
      by blast
    then show ?thesis
      by (auto simp: update_keys)
  qed
qed

lemma seed_nodes_distinct:
  "seed_nodes dt ks gn = Inr gn' \<Longrightarrow> distinct (map fst gn) \<Longrightarrow> distinct (map fst gn')"
proof (induction ks arbitrary: gn)
  case Nil
  then show ?case by simp
next
  case (Cons k ks)
  show ?case
  proof (cases "Some k = root_node_name dt")
    case True
    with Cons.prems have "seed_nodes dt ks gn = Inr gn'" by simp
    from Cons.IH [OF this Cons.prems(2)] show ?thesis .
  next
    case False
    with Cons.prems obtain ds where ds: "subspaces dt k = Some ds"
      and rest: "seed_nodes dt ks (AList.update k (new_node ds) gn) = Inr gn'"
      by (auto split: option.splits)
    from Cons.prems(2) have "distinct (map fst (AList.update k (new_node ds) gn))"
      by (rule distinct_update)
    from Cons.IH [OF rest this] show ?thesis .
  qed
qed


lemma make_graph_Inr:
  assumes "make_graph True rp it dt = Inr g"
  shows "\<exists>gn rels. g_nodes_of dt = Inr gn \<and>
           map (get_relationship dt) (graph_edges dt) = map Some rels \<and>
           ag_nodes g = (if graph_nodes dt \<noteq> [] then map (add_node it) gn else []) \<and>
           ag_edges g = map (add_edge rp) rels"
proof -
  from assms obtain gn where gn: "g_nodes_of dt = Inr gn"
    and ae: "add_edges rp dt (graph_edges dt)
               \<lparr>ag_nodes = (if graph_nodes dt \<noteq> [] then map (add_node it) gn else []),
                ag_edges = []\<rparr> = Inr g"
    by (auto simp: make_graph_def split: sum.splits)
  from add_edges_Inr [OF ae] obtain rels where
    "map (get_relationship dt) (graph_edges dt) = map Some rels"
    "g = \<lparr>ag_nodes = (if graph_nodes dt \<noteq> [] then map (add_node it) gn else []),
          ag_edges = []\<rparr>\<lparr>ag_edges := [] @ map (add_edge rp) rels\<rparr>"
    by auto
  with gn show ?thesis by auto
qed

section \<open>Arrow styles\<close>

text \<open>
  Claim C3. When the build succeeds, every edge of the tree resolves to a relationship and
  the graph holds one edge per relationship, in the same order, from the relationship's
  parent to its child. The arrowhead of that edge is \<^verbatim>\<open>odiamond\<close> (the hollow diamond) if
  and only if the relationship's indexing is \<^verbatim>\<open>label\<close>, and it is \<^verbatim>\<open>normal\<close> (the plain
  arrowhead) when the indexing is \<^verbatim>\<open>position\<close>.
\<close>

theorem arrowhead_by_indexing:
  assumes "make_graph True rel_repr set_iter dt = Inr g"
  shows "\<exists>rels. map (get_relationship dt) (graph_edges dt) = map Some rels \<and>
           length (ag_edges g) = length rels \<and>
           (\<forall>i<length rels.
              tail (ag_edges g ! i) = parent_data (rels ! i) \<and>
              head (ag_edges g ! i) = child_data (rels ! i) \<and>
              (arrowhead (ag_edges g ! i) = ''odiamond'' \<longleftrightarrow> indexing (rels ! i) = ''label'') \<and>
              (indexing (rels ! i) = ''position'' \<longrightarrow> arrowhead (ag_edges g ! i) = ''normal''))"
proof -
  from make_graph_Inr [OF assms] obtain rels where
    rs: "map (get_relationship dt) (graph_edges dt) = map Some rels"
    and es: "ag_edges g = map (add_edge rel_repr) rels"
    by blast
  have "\<forall>i<length rels.
          tail (ag_edges g ! i) = parent_data (rels ! i) \<and>
          head (ag_edges g ! i) = child_data (rels ! i) \<and>
          (arrowhead (ag_edges g ! i) = ''odiamond'' \<longleftrightarrow> indexing (rels ! i) = ''label'') \<and>
          (indexing (rels ! i) = ''position'' \<longrightarrow> arrowhead (ag_edges g ! i) = ''normal'')"
    by (simp add: es add_edge_def)
  with rs es show ?thesis by auto
qed

text \<open>
  Both branches are reached: a tree with one relationship indexed by label and one by
  position yields the two arrowheads.
\<close>

theorem arrowhead_by_indexing_witness:
  "\<exists>g. make_graph True parent_name sorted_list_of_set
         \<lparr>graph_nodes = [''A'', ''B''], graph_edges = [''label'', ''position''],
          get_relationship = (\<lambda>e. Some \<lparr>parent_data = ''A'', parent_name = ''idvar'',
                                        child_data = ''B'', child_name = ''bid'', indexing = e\<rparr>),
          subspaces = [''A'' \<mapsto> [''id''], ''B'' \<mapsto> [''bid'']],
          root_node_name = Some ''A''\<rparr> = Inr g \<and>
       map arrowhead (ag_edges g) = [''odiamond'', ''normal'']"
  (is "\<exists>g. make_graph True parent_name sorted_list_of_set ?dt = Inr g \<and> _")
proof -
  obtain g where g: "make_graph True parent_name sorted_list_of_set ?dt = Inr g"
    by (simp add: make_graph_def g_nodes_of_def init_nodes_def seed_root_def truthy_def
        new_node_def)
  from arrowhead_by_indexing [OF g] obtain rels where
    rs: "map (get_relationship ?dt) (graph_edges ?dt) = map Some rels"
    and len: "length (ag_edges g) = length rels"
    and arrows: "\<forall>i<length rels.
        (arrowhead (ag_edges g ! i) = ''odiamond'' \<longleftrightarrow> indexing (rels ! i) = ''label'') \<and>
        (indexing (rels ! i) = ''position'' \<longrightarrow> arrowhead (ag_edges g ! i) = ''normal'')"
    by blast
  from rs have rels: "rels =
      [\<lparr>parent_data = ''A'', parent_name = ''idvar'', child_data = ''B'',
        child_name = ''bid'', indexing = ''label''\<rparr>,
       \<lparr>parent_data = ''A'', parent_name = ''idvar'', child_data = ''B'',
        child_name = ''bid'', indexing = ''position''\<rparr>]"
    by (auto simp: map_eq_Cons_conv)
  from len rels obtain e0 e1 where es: "ag_edges g = [e0, e1]"
    by (auto simp: length_Suc_conv)
  from arrows [rule_format, of 0] rels es have "arrowhead e0 = ''odiamond''" by simp
  moreover from arrows [rule_format, of 1] rels es have "arrowhead e1 = ''normal''" by simp
  ultimately show ?thesis using g es by simp
qed

section \<open>Indexing values other than label and position\<close>

text \<open>
  The arrowhead is chosen by \<^verbatim>\<open>"odiamond" if rel.indexing == "label" else "normal"\<close>;
  no statement of \<^verbatim>\<open>make_graph\<close> inspects the indexing otherwise.
\<close>

lemma seed_nodes_indexing:
  "seed_nodes (dt\<lparr>get_relationship := h\<rparr>) ks gn = seed_nodes dt ks gn"
  by (induction ks arbitrary: gn) (auto split: option.splits)

lemma init_nodes_indexing:
  "init_nodes (dt\<lparr>get_relationship := h\<rparr>) = init_nodes dt"
  by (simp add: init_nodes_def seed_root_def seed_nodes_indexing
      cong: sum.case_cong option.case_cong)

lemma collect_vars_indexing:
  "collect_vars (dt\<lparr>get_relationship := map_option (indexing_update f) \<circ> get_relationship dt\<rparr>) es gn
     = collect_vars dt es gn"
  by (induction es arbitrary: gn) (auto split: option.splits)

lemma g_nodes_of_indexing:
  "g_nodes_of (dt\<lparr>get_relationship := map_option (indexing_update f) \<circ> get_relationship dt\<rparr>)
     = g_nodes_of dt"
  by (simp add: g_nodes_of_def init_nodes_indexing collect_vars_indexing
      cong: sum.case_cong)

lemma add_edges_indexing:
  "add_edges rp (dt\<lparr>get_relationship := map_option (indexing_update f) \<circ> get_relationship dt\<rparr>) es g = Inl e
     \<longleftrightarrow> add_edges rp dt es g' = Inl e"
  by (induction es arbitrary: g g') (auto split: option.splits)

text \<open>
  Claim C4 says that an indexing value outside label and position makes the build fail.
  It does not: a relationship indexed by \<^verbatim>\<open>nearest\<close> is drawn, with the plain arrowhead.
\<close>

theorem unsupported_indexing_builds:
  "make_graph True (\<lambda>rel. ''rel'') sorted_list_of_set
     \<lparr>graph_nodes = [''A'', ''B''], graph_edges = [()],
      get_relationship = (\<lambda>e. Some \<lparr>parent_data = ''A'', parent_name = ''idvar'',
                                    child_data = ''B'', child_name = ''bid'', indexing = ''nearest''\<rparr>),
      subspaces = [''A'' \<mapsto> [''id''], ''B'' \<mapsto> [''bid'']],
      root_node_name = Some ''A''\<rparr>
   = Inr \<lparr>ag_nodes =
            [\<lparr>node_name = ''A'',
              node_label = \<lparr>title = ''A'',
                 cells = [[Head ''L'' ''DIMENSIONS'', Head ''R'' ''VARIABLES''],
                          [Port ''dimid'' ''id'', Port ''varidvar'' ''idvar'']]\<rparr>,
              shape = ''plaintext''\<rparr>,
             \<lparr>node_name = ''B'',
              node_label = \<lparr>title = ''B'',
                 cells = [[Head ''LR'' ''DIMENSIONS''], [Port ''dimbid'' ''bid'']]\<rparr>,
              shape = ''plaintext''\<rparr>],
          ag_edges =
            [\<lparr>tail = ''A'', head = ''B'', key = ''rel'', tailport = ''varidvar'',
              headport = ''dimbid'', dir = ''forward'', arrowhead = ''normal''\<rparr>]\<rparr>"
  by (simp add: make_graph_def g_nodes_of_def init_nodes_def seed_root_def truthy_def
      new_node_def add_node_def add_edge_def node_label_def pair_row_def dim_row_def)

text \<open>
  Claim C4 as amended. The indexing values never decide whether the build fails: replacing
  every relationship's indexing by any other value (\<open>f\<close>) leaves the error, if there is
  one, unchanged. When the build succeeds, every relationship whose indexing is not
  \<^verbatim>\<open>label\<close>, be it \<^verbatim>\<open>position\<close> or anything else, gets the arrowhead \<^verbatim>\<open>normal\<close>.
\<close>

theorem indexing_never_rejected:
  "(make_graph viz rel_repr set_iter
      (dt\<lparr>get_relationship := map_option (indexing_update f) \<circ> get_relationship dt\<rparr>) = Inl e
    \<longleftrightarrow> make_graph viz rel_repr set_iter dt = Inl e) \<and>
   (\<forall>g. make_graph True rel_repr set_iter dt = Inr g \<longrightarrow>
      (\<exists>rels. map (get_relationship dt) (graph_edges dt) = map Some rels \<and>
         length (ag_edges g) = length rels \<and>
         (\<forall>i<length rels. indexing (rels ! i) \<noteq> ''label'' \<longrightarrow>
            arrowhead (ag_edges g ! i) = ''normal'')))"
proof (intro conjI allI impI)
  show "make_graph viz rel_repr set_iter
      (dt\<lparr>get_relationship := map_option (indexing_update f) \<circ> get_relationship dt\<rparr>) = Inl e
    \<longleftrightarrow> make_graph viz rel_repr set_iter dt = Inl e"
    by (auto simp: make_graph_def g_nodes_of_indexing add_edges_indexing split: sum.splits)
next
  fix g
  assume "make_graph True rel_repr set_iter dt = Inr g"
  from make_graph_Inr [OF this] obtain rels where
    rs: "map (get_relationship dt) (graph_edges dt) = map Some rels"
    and es: "ag_edges g = map (add_edge rel_repr) rels"
    by blast
  have "\<forall>i<length rels. indexing (rels ! i) \<noteq> ''label'' \<longrightarrow>
          arrowhead (ag_edges g ! i) = ''normal''"
    by (simp add: es add_edge_def)
  with rs es show "\<exists>rels. map (get_relationship dt) (graph_edges dt) = map Some rels \<and>
         length (ag_edges g) = length rels \<and>
         (\<forall>i<length rels. indexing (rels ! i) \<noteq> ''label'' \<longrightarrow>
            arrowhead (ag_edges g ! i) = ''normal'')"
    by auto
qed

theorem indexing_never_rejected_witness:
  "\<exists>g. make_graph True (\<lambda>rel. ''rel'') sorted_list_of_set
         \<lparr>graph_nodes = [''A'', ''B''], graph_edges = [()],
          get_relationship = (\<lambda>e. Some \<lparr>parent_data = ''A'', parent_name = ''idvar'',
                                        child_data = ''B'', child_name = ''bid'', indexing = ''nearest''\<rparr>),
          subspaces = [''A'' \<mapsto> [''id''], ''B'' \<mapsto> [''bid'']],
          root_node_name = Some ''A''\<rparr> = Inr g \<and>
       map arrowhead (ag_edges g) = [''normal'']"
  (is "\<exists>g. make_graph True ?rp sorted_list_of_set ?dt = Inr g \<and> _")
proof -
  obtain g where g: "make_graph True ?rp sorted_list_of_set ?dt = Inr g"
    by (simp add: make_graph_def g_nodes_of_def init_nodes_def seed_root_def truthy_def
        new_node_def)
  from indexing_never_rejected [of True ?rp sorted_list_of_set id ?dt ModuleNotFoundError] g
  obtain rels where
    rs: "map (get_relationship ?dt) (graph_edges ?dt) = map Some rels"
    and len: "length (ag_edges g) = length rels"
    and arrows: "\<forall>i<length rels. indexing (rels ! i) \<noteq> ''label'' \<longrightarrow>
            arrowhead (ag_edges g ! i) = ''normal''"
    by blast
  from rs have rels: "rels =
      [\<lparr>parent_data = ''A'', parent_name = ''idvar'', child_data = ''B'',
        child_name = ''bid'', indexing = ''nearest''\<rparr>]"
    by (auto simp: map_eq_Cons_conv)
  from len rels obtain e0 where es: "ag_edges g = [e0]"
    by (auto simp: length_Suc_conv)
  from arrows [rule_format, of 0] rels es have "arrowhead e0 = ''normal''" by simp
  then show ?thesis using g es by simp
qed

section \<open>The round-trip scenario and the names of the ports\<close>

text \<open>
  A set with no element is visited in one way only, and so is a set with one element.
\<close>

lemma valid_iter_single: "valid_iter set_iter \<Longrightarrow> set_iter {x} = [x]"
proof -
  assume "valid_iter set_iter"
  then have s: "set (set_iter {x}) = {x}" and d: "distinct (set_iter {x})"
    by (simp_all add: valid_iter_def)
  from d have "length (set_iter {x}) = card (set (set_iter {x}))"
    by (simp add: distinct_card)
  with s have "length (set_iter {x}) = 1" by simp
  then obtain y where "set_iter {x} = [y]"
    by (auto simp: length_Suc_conv)
  with s show ?thesis by simp
qed

lemma valid_iter_empty: "valid_iter set_iter \<Longrightarrow> set_iter {} = []"
proof -
  assume "valid_iter set_iter"
  then have "set (set_iter {}) = {}"
    by (simp add: valid_iter_def)
  then show ?thesis by simp
qed

text \<open>
  Claim C2 expects the edge of the scenario to leave from the port \<^verbatim>\<open>var:idvar\<close> and to
  arrive at the port \<^verbatim>\<open>dim:bid\<close>. The source builds the names of the ports by
  \<^verbatim>\<open>f"var{rel.parent_name}"\<close> and \<^verbatim>\<open>f"dim{rel.child_name}"\<close>, with no separator, in the
  label and on the edge alike: the ports are \<^verbatim>\<open>varidvar\<close> and \<^verbatim>\<open>dimbid\<close>.
\<close>

theorem port_names_counterexample:
  "make_graph True (\<lambda>rel. ''rel'') sorted_list_of_set
     \<lparr>graph_nodes = [''A'', ''B''], graph_edges = [()],
      get_relationship = (\<lambda>e. Some \<lparr>parent_data = ''A'', parent_name = ''idvar'',
                                    child_data = ''B'', child_name = ''bid'', indexing = ''label''\<rparr>),
      subspaces = [''A'' \<mapsto> [''id''], ''B'' \<mapsto> [''bid'']],
      root_node_name = Some ''A''\<rparr>
   = Inr \<lparr>ag_nodes =
            [\<lparr>node_name = ''A'',
              node_label = \<lparr>title = ''A'',
                 cells = [[Head ''L'' ''DIMENSIONS'', Head ''R'' ''VARIABLES''],
                          [Port ''dimid'' ''id'', Port ''varidvar'' ''idvar'']]\<rparr>,
              shape = ''plaintext''\<rparr>,
             \<lparr>node_name = ''B'',
              node_label = \<lparr>title = ''B'',
                 cells = [[Head ''LR'' ''DIMENSIONS''], [Port ''dimbid'' ''bid'']]\<rparr>,
              shape = ''plaintext''\<rparr>],
          ag_edges =
            [\<lparr>tail = ''A'', head = ''B'', key = ''rel'', tailport = ''varidvar'',
              headport = ''dimbid'', dir = ''forward'', arrowhead = ''odiamond''\<rparr>]\<rparr>
   \<and> ''varidvar'' \<noteq> ''var:idvar'' \<and> ''dimbid'' \<noteq> ''dim:bid''"
  by (simp add: make_graph_def g_nodes_of_def init_nodes_def seed_root_def truthy_def
      new_node_def add_node_def add_edge_def node_label_def pair_row_def dim_row_def)

text \<open>
  Claim C2 as amended. For nodes \<^verbatim>\<open>A\<close> (dimension \<^verbatim>\<open>id\<close>) and \<^verbatim>\<open>B\<close> (dimension
  \<^verbatim>\<open>bid\<close>) and the one relationship from variable \<^verbatim>\<open>idvar\<close> of \<^verbatim>\<open>A\<close> to dimension
  \<^verbatim>\<open>bid\<close> of \<^verbatim>\<open>B\<close>, indexed by label: the node dictionary ends with \<^verbatim>\<open>A\<close> holding the
  variable set \<open>{idvar}\<close> and \<^verbatim>\<open>B\<close> unchanged; the graph has exactly these two nodes and
  exactly one edge, from \<^verbatim>\<open>A\<close> to \<^verbatim>\<open>B\<close>, with tail port \<^verbatim>\<open>varidvar\<close>, head port
  \<^verbatim>\<open>dimbid\<close> and the hollow-diamond arrowhead \<^verbatim>\<open>odiamond\<close>. This holds whatever the
  edge reference, the key function and the iteration order of the sets are, with \<^verbatim>\<open>A\<close>
  as the root or with none.
\<close>

theorem round_trip_scenario:
  assumes "valid_iter set_iter" and "root = None \<or> root = Some ''A''"
  shows
  "g_nodes_of
     \<lparr>graph_nodes = [''A'', ''B''], graph_edges = [e],
      get_relationship = (\<lambda>e. Some \<lparr>parent_data = ''A'', parent_name = ''idvar'',
                                    child_data = ''B'', child_name = ''bid'', indexing = ''label''\<rparr>),
      subspaces = [''A'' \<mapsto> [''id''], ''B'' \<mapsto> [''bid'']],
      root_node_name = root\<rparr>
   = Inr [(''A'', \<lparr>dims = [''id''], vars = {''idvar''}\<rparr>), (''B'', \<lparr>dims = [''bid''], vars = {}\<rparr>)]
   \<and>
   make_graph True rel_repr set_iter
     \<lparr>graph_nodes = [''A'', ''B''], graph_edges = [e],
      get_relationship = (\<lambda>e. Some \<lparr>parent_data = ''A'', parent_name = ''idvar'',
                                    child_data = ''B'', child_name = ''bid'', indexing = ''label''\<rparr>),
      subspaces = [''A'' \<mapsto> [''id''], ''B'' \<mapsto> [''bid'']],
      root_node_name = root\<rparr>
   = Inr \<lparr>ag_nodes =
            [\<lparr>node_name = ''A'',
              node_label = \<lparr>title = ''A'',
                 cells = [[Head ''L'' ''DIMENSIONS'', Head ''R'' ''VARIABLES''],
                          [Port ''dimid'' ''id'', Port ''varidvar'' ''idvar'']]\<rparr>,
              shape = ''plaintext''\<rparr>,
             \<lparr>node_name = ''B'',
              node_label = \<lparr>title = ''B'',
                 cells = [[Head ''LR'' ''DIMENSIONS''], [Port ''dimbid'' ''bid'']]\<rparr>,
              shape = ''plaintext''\<rparr>],
          ag_edges =
            [\<lparr>tail = ''A'', head = ''B'',
              key = rel_repr \<lparr>parent_data = ''A'', parent_name = ''idvar'',
                                child_data = ''B'', child_name = ''bid'', indexing = ''label''\<rparr>,
              tailport = ''varidvar'', headport = ''dimbid'', dir = ''forward'',
              arrowhead = ''odiamond''\<rparr>]\<rparr>"
proof -
  from assms(1) have "set_iter {''idvar''} = [''idvar'']"
    by (rule valid_iter_single)
  with assms(2) show ?thesis
    by (auto simp: make_graph_def g_nodes_of_def init_nodes_def seed_root_def truthy_def
        new_node_def add_node_def add_edge_def node_label_def pair_row_def dim_row_def)
qed

theorem round_trip_scenario_witness:
  "make_graph True (\<lambda>rel. ''A.idvar -> B.bid'') sorted_list_of_set
     \<lparr>graph_nodes = [''A'', ''B''], graph_edges = [()],
      get_relationship = (\<lambda>e. Some \<lparr>parent_data = ''A'', parent_name = ''idvar'',
                                    child_data = ''B'', child_name = ''bid'', indexing = ''label''\<rparr>),
      subspaces = [''A'' \<mapsto> [''id''], ''B'' \<mapsto> [''bid'']],
      root_node_name = None\<rparr>
   = Inr \<lparr>ag_nodes =
            [\<lparr>node_name = ''A'',
              node_label = \<lparr>title = ''A'',
                 cells = [[Head ''L'' ''DIMENSIONS'', Head ''R'' ''VARIABLES''],
                          [Port ''dimid'' ''id'', Port ''varidvar'' ''idvar'']]\<rparr>,
              shape = ''plaintext''\<rparr>,
             \<lparr>node_name = ''B'',
              node_label = \<lparr>title = ''B'',
                 cells = [[Head ''LR'' ''DIMENSIONS''], [Port ''dimbid'' ''bid'']]\<rparr>,
              shape = ''plaintext''\<rparr>],
          ag_edges =
            [\<lparr>tail = ''A'', head = ''B'', key = ''A.idvar -> B.bid'',
              tailport = ''varidvar'', headport = ''dimbid'', dir = ''forward'',
              arrowhead = ''odiamond''\<rparr>]\<rparr>"
proof -
  have v: "valid_iter sorted_list_of_set"
    by (simp add: valid_iter_def)
  have r: "(None :: string option) = None \<or> None = Some ''A''"
    by simp
  from round_trip_scenario [OF v r, of "()" "\<lambda>rel. ''A.idvar -> B.bid''"]
  show ?thesis by simp
qed

section \<open>Identifiers missing from the subspaces\<close>









section \<open>The nodes of the graph\<close>




lemma g_nodes_of_keys:
  assumes "g_nodes_of dt = Inr gn"
  shows "distinct (map fst gn) \<and>
         fst ` set gn =
           (if graph_nodes dt = [] then {}
            else {k \<in> set (graph_nodes dt). Some k \<noteq> root_node_name dt}
                 \<union> (if truthy (root_node_name dt) then {the (root_node_name dt)} else {}))"
proof -
  from assms obtain gn0 where init: "init_nodes dt = Inr gn0"
    and coll: "collect_vars dt (graph_edges dt) gn0 = Inr gn"
    by (auto simp: g_nodes_of_def split: sum.splits)
  from collect_vars_keys [OF coll] have keys: "map fst gn = map fst gn0" .
  then have keyset: "fst ` set gn = fst ` set gn0"
    by (metis set_map)
  show ?thesis
  proof (cases "graph_nodes dt = []")
    case True
    with init have "gn0 = []" by (simp add: init_nodes_def)
    with keys True show ?thesis by simp
  next
    case False
    with init obtain gr where root: "seed_root dt = Inr gr"
      and seed: "seed_nodes dt (graph_nodes dt) gr = Inr gn0"
      by (auto simp: init_nodes_def split: sum.splits)
    from root have gr: "distinct (map fst gr)"
      "fst ` set gr = (if truthy (root_node_name dt) then {the (root_node_name dt)} else {})"
      by (auto simp: seed_root_def split: if_splits option.splits)
    from seed_nodes_distinct [OF seed gr(1)] seed_nodes_keys [OF seed] gr(2) keys keyset False
    show ?thesis by auto
  qed
qed

lemma make_graph_node_names:
  assumes "make_graph True rp it dt = Inr g"
  shows "\<exists>gn. g_nodes_of dt = Inr gn \<and> ag_nodes g = map (add_node it) gn \<and>
              map node_name (ag_nodes g) = map fst gn"
proof -
  from make_graph_Inr [OF assms] obtain gn where gn: "g_nodes_of dt = Inr gn"
    and ns: "ag_nodes g = (if graph_nodes dt \<noteq> [] then map (add_node it) gn else [])"
    by blast
  have "graph_nodes dt = [] \<Longrightarrow> gn = []"
  proof -
    assume "graph_nodes dt = []"
    with gn have "collect_vars dt (graph_edges dt) [] = Inr gn"
      by (simp add: g_nodes_of_def init_nodes_def)
    from collect_vars_keys [OF this] show "gn = []" by simp
  qed
  with ns have "ag_nodes g = map (add_node it) gn" by auto
  moreover have "map node_name (map (add_node it) gn) = map fst gn"
    by (simp add: add_node_def comp_def)
  ultimately show ?thesis using gn by simp
qed



text \<open>
  Claim C7 says that a dataset which is in no edge and is not the root is not rendered.
  It is: every identifier of the node iteration is seeded at lines 29 to 35, so node
  \<^verbatim>\<open>B\<close> below, with no edge at all, gets its node and label.
\<close>

theorem isolated_node_rendered:
  "make_graph True (\<lambda>rel. ''rel'') sorted_list_of_set
     \<lparr>graph_nodes = [''A'', ''B''], graph_edges = ([] :: unit list),
      get_relationship = (\<lambda>e. None),
      subspaces = [''A'' \<mapsto> [''id''], ''B'' \<mapsto> [''bid'']],
      root_node_name = Some ''A''\<rparr>
   = Inr \<lparr>ag_nodes =
            [\<lparr>node_name = ''A'',
              node_label = \<lparr>title = ''A'',
                 cells = [[Head ''LR'' ''DIMENSIONS''], [Port ''dimid'' ''id'']]\<rparr>,
              shape = ''plaintext''\<rparr>,
             \<lparr>node_name = ''B'',
              node_label = \<lparr>title = ''B'',
                 cells = [[Head ''LR'' ''DIMENSIONS''], [Port ''dimbid'' ''bid'']]\<rparr>,
              shape = ''plaintext''\<rparr>],
          ag_edges = []\<rparr>"
  by (simp add: make_graph_def g_nodes_of_def init_nodes_def seed_root_def truthy_def
      new_node_def add_node_def node_label_def dim_row_def)

text \<open>
  Claim C7 as amended. When the build succeeds, the names of the nodes of the graph are
  pairwise distinct, and they are exactly the identifiers of the node iteration together
  with the root, if one is given (none at all when the node iteration is empty); every
  parent of a relationship is among them. An identifier in no edge is rendered like the
  others. The root name, if there is one, is taken not to be the empty string.
\<close>

theorem rendered_nodes:
  assumes g: "make_graph True rel_repr set_iter dt = Inr g"
    and root: "root_node_name dt \<noteq> Some []"
  shows "distinct (map node_name (ag_nodes g)) \<and>
         set (map node_name (ag_nodes g)) =
           (if graph_nodes dt = [] then {}
            else set (graph_nodes dt) \<union> set_option (root_node_name dt)) \<and>
         (\<exists>rels. map (get_relationship dt) (graph_edges dt) = map Some rels \<and>
                 parent_data ` set rels \<subseteq> set (map node_name (ag_nodes g)))"
proof -
  from make_graph_node_names [OF g] obtain gn where gn: "g_nodes_of dt = Inr gn"
    and names: "map node_name (ag_nodes g) = map fst gn"
    by blast
  from g_nodes_of_keys [OF gn] have dist: "distinct (map fst gn)"
    and keys: "fst ` set gn =
           (if graph_nodes dt = [] then {}
            else {k \<in> set (graph_nodes dt). Some k \<noteq> root_node_name dt}
                 \<union> (if truthy (root_node_name dt) then {the (root_node_name dt)} else {}))"
    by simp_all
  have "{k \<in> set (graph_nodes dt). Some k \<noteq> root_node_name dt}
          \<union> (if truthy (root_node_name dt) then {the (root_node_name dt)} else {})
        = set (graph_nodes dt) \<union> set_option (root_node_name dt)"
    using root by (cases "root_node_name dt") (auto simp: truthy_def)
  with keys have keys': "set (map fst gn) =
           (if graph_nodes dt = [] then {}
            else set (graph_nodes dt) \<union> set_option (root_node_name dt))"
    by simp
  from gn obtain gn0 where coll: "collect_vars dt (graph_edges dt) gn0 = Inr gn"
    by (auto simp: g_nodes_of_def split: sum.splits)
  from collect_vars_resolves [OF coll] collect_vars_keys [OF coll]
  obtain rels where "map (get_relationship dt) (graph_edges dt) = map Some rels"
    and "parent_data ` set rels \<subseteq> set (map fst gn)"
    by (metis set_map)
  with dist keys' names show ?thesis by auto
qed

theorem rendered_nodes_witness:
  "\<exists>g. make_graph True (\<lambda>rel. ''rel'') sorted_list_of_set
        \<lparr>graph_nodes = [''B'', ''C'', ''A''], graph_edges = [()],
         get_relationship = (\<lambda>e. Some \<lparr>parent_data = ''A'', parent_name = ''idvar'',
                                       child_data = ''B'', child_name = ''bid'', indexing = ''label''\<rparr>),
         subspaces = [''A'' \<mapsto> [''id''], ''B'' \<mapsto> [''bid''], ''C'' \<mapsto> []],
         root_node_name = Some ''A''\<rparr> = Inr g \<and>
      distinct (map node_name (ag_nodes g)) \<and>
      set (map node_name (ag_nodes g)) = {''A'', ''B'', ''C''}"
  (is "\<exists>g. make_graph True ?rp sorted_list_of_set ?dt = Inr g \<and> _ g")
proof -
  obtain g where g: "make_graph True ?rp sorted_list_of_set ?dt = Inr g"
    by (simp add: make_graph_def g_nodes_of_def init_nodes_def seed_root_def truthy_def
        new_node_def)
  have root: "root_node_name ?dt \<noteq> Some []" by simp
  from rendered_nodes [OF g root] have "distinct (map node_name (ag_nodes g))"
    and "set (map node_name (ag_nodes g)) = {''A'', ''B'', ''C''}"
    by auto
  with g show ?thesis by blast
qed

section \<open>The order of the variables in a label\<close>

text \<open>
  The variable sets of the node dictionary are finite, and neither the dictionary nor
  the edges nor a failure of the build depend on the order in which a set is visited:
  only \<^verbatim>\<open>node_label\<close> iterates over one.
\<close>

lemma update_values:
  "P v \<Longrightarrow> \<forall>w\<in>snd ` set al. P w \<Longrightarrow> \<forall>w\<in>snd ` set (AList.update k v al). P w"
  by (induction al) auto

lemma seed_nodes_finite:
  "seed_nodes dt ks gn = Inr gn' \<Longrightarrow> \<forall>v\<in>snd ` set gn. finite (vars v) \<Longrightarrow>
   \<forall>v\<in>snd ` set gn'. finite (vars v)"
proof (induction ks arbitrary: gn)
  case Nil
  then show ?case by simp
next
  case (Cons k ks)
  show ?case
  proof (cases "Some k = root_node_name dt")
    case True
    with Cons.prems have "seed_nodes dt ks gn = Inr gn'" by simp
    from Cons.IH [OF this Cons.prems(2)] show ?thesis .
  next
    case False
    with Cons.prems obtain ds where
      rest: "seed_nodes dt ks (AList.update k (new_node ds) gn) = Inr gn'"
      by (auto split: option.splits)
    have "finite (vars (new_node ds))"
      by (simp add: new_node_def)
    then have "\<forall>v\<in>snd ` set (AList.update k (new_node ds) gn). finite (vars v)"
      using Cons.prems(2) by (rule update_values)
    from Cons.IH [OF rest this] show ?thesis .
  qed
qed

lemma collect_vars_finite:
  "collect_vars dt es gn = Inr gn' \<Longrightarrow> \<forall>v\<in>snd ` set gn. finite (vars v) \<Longrightarrow>
   \<forall>v\<in>snd ` set gn'. finite (vars v)"
proof (induction es arbitrary: gn)
  case Nil
  then show ?case by simp
next
  case (Cons e es)
  from Cons.prems obtain rel v where rel: "get_relationship dt e = Some rel"
    and v: "map_of gn (parent_data rel) = Some v"
    and rest: "collect_vars dt es (AList.update (parent_data rel) (v\<lparr>vars := insert (parent_name rel) (vars v)\<rparr>) gn) = Inr gn'"
    by (auto split: option.splits)
  from v have "v \<in> snd ` set gn"
    by (metis map_of_SomeD image_eqI snd_conv)
  with Cons.prems(2) have "finite (vars v)" by blast
  then have "finite (vars (v\<lparr>vars := insert (parent_name rel) (vars v)\<rparr>))"
    by simp
  then have "\<forall>w\<in>snd ` set (AList.update (parent_data rel) (v\<lparr>vars := insert (parent_name rel) (vars v)\<rparr>) gn). finite (vars w)"
    using Cons.prems(2) by (rule update_values)
  from Cons.IH [OF rest this] show ?case .
qed

lemma g_nodes_of_finite:
  assumes "g_nodes_of dt = Inr gn"
  shows "\<forall>v\<in>snd ` set gn. finite (vars v)"
proof -
  from assms obtain gn0 where init: "init_nodes dt = Inr gn0"
    and coll: "collect_vars dt (graph_edges dt) gn0 = Inr gn"
    by (auto simp: g_nodes_of_def split: sum.splits)
  have "\<forall>v\<in>snd ` set gn0. finite (vars v)"
  proof (cases "graph_nodes dt = []")
    case True
    with init show ?thesis by (simp add: init_nodes_def)
  next
    case False
    with init obtain gr where root: "seed_root dt = Inr gr"
      and seed: "seed_nodes dt (graph_nodes dt) gr = Inr gn0"
      by (auto simp: init_nodes_def split: sum.splits)
    from root have "\<forall>v\<in>snd ` set gr. finite (vars v)"
      by (auto simp: seed_root_def new_node_def split: if_splits option.splits)
    from seed_nodes_finite [OF seed this] show ?thesis .
  qed
  from collect_vars_finite [OF coll this] show ?thesis .
qed

lemma valid_iter_small:
  assumes "valid_iter it1" and "valid_iter it2" and "finite S" and "card S \<le> 1"
  shows "it2 S = it1 S"
proof (cases "S = {}")
  case True
  with assms(1,2) show ?thesis by (simp add: valid_iter_empty)
next
  case False
  with assms(3,4) have "card S = 1"
    by (metis card_0_eq le_antisym less_one not_less)
  then obtain x where "S = {x}"
    by (auto simp: card_1_singleton_iff)
  with assms(1,2) show ?thesis by (simp add: valid_iter_single)
qed

lemma add_edges_error:
  "add_edges rp dt es g = Inl e \<longleftrightarrow> add_edges rp dt es g' = Inl e"
  by (induction es arbitrary: g g') (auto split: option.splits)

lemma make_graph_error:
  "make_graph viz rp it1 dt = Inl e \<longleftrightarrow> make_graph viz rp it2 dt = Inl e"
  by (auto simp: make_graph_def add_edges_error [of rp dt _ _ e] split: sum.splits)

lemma make_graph_resolved:
  assumes "g_nodes_of dt = Inr gn"
    and "map (get_relationship dt) (graph_edges dt) = map Some rels"
  shows "make_graph True rp it dt =
           Inr \<lparr>ag_nodes = (if graph_nodes dt \<noteq> [] then map (add_node it) gn else []),
                ag_edges = map (add_edge rp) rels\<rparr>"
  using assms(1) add_edges_resolved [OF assms(2)]
  by (simp add: make_graph_def)

text \<open>
  Claim C9 says that the order in which a label enumerates the variables of its node is
  the same on every run. The variables are kept in a plain \<^verbatim>\<open>set()\<close>, neither sorted nor
  kept in insertion order, and line 61 iterates over it directly. Two iteration orders
  of the set \<open>{x, y}\<close>, both visiting each element once, give two different labels for
  node \<^verbatim>\<open>A\<close>: one pairs dimension \<^verbatim>\<open>id\<close> with \<^verbatim>\<open>x\<close>, the other with \<^verbatim>\<open>y\<close>.
\<close>

theorem variable_order_counterexample:
  "valid_iter sorted_list_of_set \<and> valid_iter (rev \<circ> sorted_list_of_set) \<and>
   make_graph True (\<lambda>rel. ''rel'') sorted_list_of_set
     \<lparr>graph_nodes = [''A'', ''B''], graph_edges = [''x'', ''y''],
      get_relationship = (\<lambda>e. Some \<lparr>parent_data = ''A'', parent_name = e,
                                    child_data = ''B'', child_name = ''bid'', indexing = ''label''\<rparr>),
      subspaces = [''A'' \<mapsto> [''id''], ''B'' \<mapsto> [''bid'']],
      root_node_name = Some ''A''\<rparr>
   \<noteq>
   make_graph True (\<lambda>rel. ''rel'') (rev \<circ> sorted_list_of_set)
     \<lparr>graph_nodes = [''A'', ''B''], graph_edges = [''x'', ''y''],
      get_relationship = (\<lambda>e. Some \<lparr>parent_data = ''A'', parent_name = e,
                                    child_data = ''B'', child_name = ''bid'', indexing = ''label''\<rparr>),
      subspaces = [''A'' \<mapsto> [''id''], ''B'' \<mapsto> [''bid'']],
      root_node_name = Some ''A''\<rparr>"
proof -
  have s: "sorted_list_of_set {''x'', ''y''} = [''x'', ''y'']"
    by code_simp
  have "valid_iter sorted_list_of_set" "valid_iter (rev \<circ> sorted_list_of_set)"
    by (simp_all add: valid_iter_def)
  then show ?thesis
    by (simp add: make_graph_def g_nodes_of_def init_nodes_def seed_root_def truthy_def
      new_node_def add_node_def add_edge_def node_label_def pair_row_def dim_row_def s
      insert_commute)
qed

text \<open>
  Claim C9 as amended. For a fixed tree and two iteration orders of the sets: both runs
  fail with the same error or both succeed; when they succeed, both graphs come from
  the same node dictionary (the same identifiers in the same order, with the same
  dimensions and variable sets), each node labelled by \<^verbatim>\<open>node_label\<close> under the run's own
  order, and both have the same edges. The two graphs are equal when no node has more
  than one variable.
\<close>

theorem output_up_to_variable_order:
  assumes v1: "valid_iter it1" and v2: "valid_iter it2"
  shows "(make_graph viz rel_repr it1 dt = Inl e \<longleftrightarrow> make_graph viz rel_repr it2 dt = Inl e) \<and>
         (\<forall>g1. make_graph True rel_repr it1 dt = Inr g1 \<longrightarrow>
            (\<exists>g2 gn. make_graph True rel_repr it2 dt = Inr g2 \<and>
               g_nodes_of dt = Inr gn \<and>
               ag_nodes g1 = map (add_node it1) gn \<and>
               ag_nodes g2 = map (add_node it2) gn \<and>
               ag_edges g2 = ag_edges g1 \<and>
               ((\<forall>v\<in>snd ` set gn. card (vars v) \<le> 1) \<longrightarrow> g2 = g1)))"
proof (intro conjI allI impI)
  show "make_graph viz rel_repr it1 dt = Inl e \<longleftrightarrow> make_graph viz rel_repr it2 dt = Inl e"
    by (rule make_graph_error)
next
  fix g1
  assume g1: "make_graph True rel_repr it1 dt = Inr g1"
  from make_graph_node_names [OF g1] obtain gn where gn: "g_nodes_of dt = Inr gn"
    and n1: "ag_nodes g1 = map (add_node it1) gn"
    by blast
  from make_graph_Inr [OF g1] obtain rels where
    rs: "map (get_relationship dt) (graph_edges dt) = map Some rels"
    and e1: "ag_edges g1 = map (add_edge rel_repr) rels"
    by blast
  define g2 where "g2 = \<lparr>ag_nodes = (if graph_nodes dt \<noteq> [] then map (add_node it2) gn else []),
                ag_edges = map (add_edge rel_repr) rels\<rparr>"
  have g2: "make_graph True rel_repr it2 dt = Inr g2"
    unfolding g2_def by (rule make_graph_resolved [OF gn rs])
  from make_graph_node_names [OF g2] gn have n2: "ag_nodes g2 = map (add_node it2) gn"
    by simp
  have e2: "ag_edges g2 = ag_edges g1"
    by (simp add: g2_def e1)
  have same: "g2 = g1" if small: "\<forall>v\<in>snd ` set gn. card (vars v) \<le> 1"
  proof -
    have "add_node it2 kv = add_node it1 kv" if "kv \<in> set gn" for kv
    proof -
      from that have "snd kv \<in> snd ` set gn" by simp
      with small g_nodes_of_finite [OF gn] have "finite (vars (snd kv))" "card (vars (snd kv)) \<le> 1"
        by blast+
      from valid_iter_small [OF v1 v2 this] show ?thesis
        by (simp add: add_node_def node_label_def)
    qed
    with n1 n2 have "ag_nodes g2 = ag_nodes g1" by simp
    with e2 show ?thesis by simp
  qed
  from g2 gn n1 n2 e2 same
  show "\<exists>g2 gn. make_graph True rel_repr it2 dt = Inr g2 \<and>
               g_nodes_of dt = Inr gn \<and>
               ag_nodes g1 = map (add_node it1) gn \<and>
               ag_nodes g2 = map (add_node it2) gn \<and>
               ag_edges g2 = ag_edges g1 \<and>
               ((\<forall>v\<in>snd ` set gn. card (vars v) \<le> 1) \<longrightarrow> g2 = g1)"
    by blast
qed

theorem output_up_to_variable_order_witness:
  "make_graph True (\<lambda>rel. ''rel'') (rev \<circ> sorted_list_of_set)
     \<lparr>graph_nodes = [''A'', ''B''], graph_edges = [()],
      get_relationship = (\<lambda>e. Some \<lparr>parent_data = ''A'', parent_name = ''idvar'',
                                    child_data = ''B'', child_name = ''bid'', indexing = ''label''\<rparr>),
      subspaces = [''A'' \<mapsto> [''id''], ''B'' \<mapsto> [''bid'']],
      root_node_name = Some ''A''\<rparr>
   =
   make_graph True (\<lambda>rel. ''rel'') sorted_list_of_set
     \<lparr>graph_nodes = [''A'', ''B''], graph_edges = [()],
      get_relationship = (\<lambda>e. Some \<lparr>parent_data = ''A'', parent_name = ''idvar'',
                                    child_data = ''B'', child_name = ''bid'', indexing = ''label''\<rparr>),
      subspaces = [''A'' \<mapsto> [''id''], ''B'' \<mapsto> [''bid'']],
      root_node_name = Some ''A''\<rparr>"
  (is "make_graph True ?rp ?it2 ?dt = make_graph True ?rp ?it1 ?dt")
proof -
  have v1: "valid_iter ?it1" and v2: "valid_iter ?it2"
    by (simp_all add: valid_iter_def)
  obtain g1 where g1: "make_graph True ?rp ?it1 ?dt = Inr g1"
    by (simp add: make_graph_def g_nodes_of_def init_nodes_def seed_root_def truthy_def
        new_node_def)
  have gn: "g_nodes_of ?dt =
      Inr [(''A'', \<lparr>dims = [''id''], vars = {''idvar''}\<rparr>), (''B'', \<lparr>dims = [''bid''], vars = {}\<rparr>)]"
    by (simp add: g_nodes_of_def init_nodes_def seed_root_def truthy_def new_node_def)
  from output_up_to_variable_order [OF v1 v2, of True ?rp ?dt ModuleNotFoundError] g1
  obtain g2 gn' where g2: "make_graph True ?rp ?it2 ?dt = Inr g2"
    and gn': "g_nodes_of ?dt = Inr gn'"
    and same: "(\<forall>v\<in>snd ` set gn'. card (vars v) \<le> 1) \<longrightarrow> g2 = g1"
    by blast
  from gn gn' have "\<forall>v\<in>snd ` set gn'. card (vars v) \<le> 1"
    by auto
  with same have "g2 = g1" by blast
  with g1 g2 show ?thesis by simp
qed

section \<open>The attribute rows of a label\<close>

text \<open>
  For a node with at least one dimension the label has as many attribute rows as the
  longer of its two columns; for a node with no dimension it has none, whatever its
  variables.
\<close>

lemma pair_row_has_port: "list_ex is_port (pair_row p)"
  by (cases p) (simp add: pair_row_def)

lemma attr_rows_count:
  assumes "dims v \<noteq> []" and "valid_iter set_iter" and "finite (vars v)"
  shows "length (attr_rows (node_label set_iter k v)) = max (length (dims v)) (card (vars v))"
proof -
  from assms(2,3) have "set (set_iter (vars v)) = vars v" "distinct (set_iter (vars v))"
    by (simp_all add: valid_iter_def)
  then have len: "length (set_iter (vars v)) = card (vars v)"
    by (metis distinct_card)
  show ?thesis
  proof (cases "vars v = {}")
    case True
    with assms(1) show ?thesis
      by (simp add: attr_rows_def node_label_def dim_row_def)
  next
    case False
    have "filter (list_ex is_port) (map pair_row zs) = map pair_row zs" for zs
      by (simp add: pair_row_has_port)
    with assms(1) False len show ?thesis
      by (simp add: attr_rows_def node_label_def zip_longest_length)
  qed
qed

lemma attr_rows_no_dims: "dims v = [] \<Longrightarrow> attr_rows (node_label set_iter k v) = []"
  by (simp add: attr_rows_def node_label_def)

text \<open>
  Claim C1 asks for \<open>max k m\<close> attribute rows for \<open>k\<close> dimensions and \<open>m\<close> variables.
  Node \<^verbatim>\<open>A\<close> below has no dimension and the variable \<^verbatim>\<open>idvar\<close>: neither branch of
  \<^verbatim>\<open>node_label\<close> applies (both require \<^verbatim>\<open>len(v["dims"]) > 0\<close>), its label has no
  attribute row, and the edge leaves from the port \<^verbatim>\<open>varidvar\<close>, which no cell of the
  label carries.
\<close>

theorem variables_without_dimensions_dropped:
  "make_graph True (\<lambda>rel. ''rel'') sorted_list_of_set
     \<lparr>graph_nodes = [''A'', ''B''], graph_edges = [()],
      get_relationship = (\<lambda>e. Some \<lparr>parent_data = ''A'', parent_name = ''idvar'',
                                    child_data = ''B'', child_name = ''bid'', indexing = ''label''\<rparr>),
      subspaces = [''A'' \<mapsto> [], ''B'' \<mapsto> [''bid'']],
      root_node_name = Some ''A''\<rparr>
   = Inr \<lparr>ag_nodes =
            [\<lparr>node_name = ''A'',
              node_label = \<lparr>title = ''A'', cells = []\<rparr>,
              shape = ''plaintext''\<rparr>,
             \<lparr>node_name = ''B'',
              node_label = \<lparr>title = ''B'',
                 cells = [[Head ''LR'' ''DIMENSIONS''], [Port ''dimbid'' ''bid'']]\<rparr>,
              shape = ''plaintext''\<rparr>],
          ag_edges =
            [\<lparr>tail = ''A'', head = ''B'', key = ''rel'', tailport = ''varidvar'',
              headport = ''dimbid'', dir = ''forward'', arrowhead = ''odiamond''\<rparr>]\<rparr>
   \<and> attr_rows (node_label sorted_list_of_set ''A'' \<lparr>dims = [], vars = {''idvar''}\<rparr>) = []
   \<and> max (length ([] :: string list)) (card {''idvar''}) = 1"
  by (simp add: make_graph_def g_nodes_of_def init_nodes_def seed_root_def truthy_def
      new_node_def add_node_def add_edge_def node_label_def pair_row_def dim_row_def
      attr_rows_def)

end
